theory Spec2Isabelle
  imports Complex_Main
begin

section \<open>ROC AUC with a bootstrap confidence interval\<close>

text \<open>
  The development embeds the two functions named \<^verbatim>\<open>roc_auc_ci\<close> of the repository:
  the bootstrap estimator of \<^verbatim>\<open>roc_utils.py\<close> and the analytic (Hanley-McNeil)
  estimator of \<^verbatim>\<open>test.py\<close>. Both are a few lines of glue around library routines
  (scikit-learn's \<^verbatim>\<open>roc_auc_score\<close>, numpy's \<^verbatim>\<open>RandomState\<close>, \<^verbatim>\<open>unique\<close>,
  \<^verbatim>\<open>sort\<close> and \<^verbatim>\<open>percentile\<close>, \<^verbatim>\<open>math.sqrt\<close>). The library routines are not part
  of the repository; each is given here by a small executable model of its behaviour, and
  the repository's functions are translated line by line on top of them.

  Conventions:
  \<^item> a Python float is either the value nan or an exact real (no rounding);
  \<^item> labels are binary (the docstring: "True binary labels (0 or 1)") and are modelled
    as \<open>bool\<close>, \<open>True\<close> for the label 1; scores are reals;
  \<^item> an exception is a value \<open>Inl e\<close> of the result type, named after the Python
    exception class that is raised;
  \<^item> what is printed, the warnings that have been issued and the process-wide numpy
    generator form the external state \<open>world\<close>, passed in and returned by everything
    that can touch it.
\<close>

subsection \<open>Floats, errors, results, external state\<close>

datatype pyfloat = NaN | Num real

datatype error = ValueError | IndexError | ZeroDivisionError

text \<open>The dictionary \<^verbatim>\<open>{"AUC": auc_val, "CI": (ci_lower, auc_val, ci_upper)}\<close>.\<close>

record result =
  AUC :: pyfloat
  CI :: "pyfloat \<times> pyfloat \<times> pyfloat"

text \<open>
  A numpy generator: the stream of raw numbers it will deliver and how many have been
  consumed. The Mersenne Twister behind \<^verbatim>\<open>np.random.RandomState\<close> is not modelled:
  the map from a seed to its stream is a parameter \<open>mt\<close> of everything below, so each
  theorem holds for every generator.
\<close>

record rng =
  stream :: "nat \<Rightarrow> nat"
  pos :: nat

record world =
  stdout :: "string list"
  warnings :: "string list"
  global_rng :: rng

text \<open>\<^verbatim>\<open>warnings.warn(message)\<close>: the warning is handed to the process.\<close>

definition warn :: "string \<Rightarrow> world \<Rightarrow> world" where
  "warn message w = w\<lparr>warnings := warnings w @ [message]\<rparr>"

subsection \<open>Library routines\<close>

text \<open>
  \<^verbatim>\<open>np.random.RandomState(seed)\<close>: a fresh generator for an integer seed; numpy rejects
  a seed outside \<open>0 .. 2^32 - 1\<close> with a ValueError.
\<close>

definition RandomState :: "(int \<Rightarrow> nat \<Rightarrow> nat) \<Rightarrow> int \<Rightarrow> error + rng" where
  "RandomState mt seed =
     (if seed < 0 \<or> 2 ^ 32 \<le> seed then Inl ValueError
      else Inr \<lparr>stream = mt seed, pos = 0\<rparr>)"

text \<open>
  \<^verbatim>\<open>rng.randint(low, high, n)\<close>: \<open>n\<close> integers in \<open>[low, high)\<close>, consuming the
  generator; ValueError when the range is empty. Each raw number is reduced into the
  range, which is where the library's contract (every value lies in the range, and every
  vector of values in the range can be delivered) enters the model.
\<close>

definition randint :: "rng \<Rightarrow> nat \<Rightarrow> nat \<Rightarrow> nat \<Rightarrow> error + (nat list \<times> rng)" where
  "randint g low high n =
     (if high \<le> low then Inl ValueError
      else Inr (map (\<lambda>j. low + stream g (pos g + j) mod (high - low)) [0..<n],
                g\<lparr>pos := pos g + n\<rparr>))"

text \<open>\<^verbatim>\<open>a[indices]\<close> for an integer index array: a new array; IndexError out of range.\<close>

definition index_array :: "'a list \<Rightarrow> nat list \<Rightarrow> error + 'a list" where
  "index_array a indices =
     (if list_all (\<lambda>i. i < length a) indices then Inr (map (\<lambda>i. a ! i) indices)
      else Inl IndexError)"

text \<open>\<^verbatim>\<open>np.unique(a)\<close>: the distinct values of \<open>a\<close>.\<close>

definition unique :: "'a list \<Rightarrow> 'a list" where
  "unique a = remdups a"

text \<open>
  \<^verbatim>\<open>np.sort(a)\<close>: a sorted copy; numpy puts the nan entries last. \<open>finite_part\<close> is
  the list of the entries that are numbers.
\<close>

definition finite_part :: "pyfloat list \<Rightarrow> real list" where
  "finite_part a = concat (map (\<lambda>v. case v of NaN \<Rightarrow> [] | Num x \<Rightarrow> [x]) a)"

definition np_sort :: "pyfloat list \<Rightarrow> pyfloat list" where
  "np_sort a = map Num (sort (finite_part a)) @ filter (\<lambda>v. v = NaN) a"

text \<open>
  Modelled from the spec: \<^verbatim>\<open>sklearn.metrics.roc_auc_score\<close> is a library routine. The
  spec (4.1, step 1) describes its value as the rank-based (Mann-Whitney U equivalent)
  estimator "AUC = P(score of random positive > score of random negative), with ties
  contributing 0.5": every (positive, negative) pair of observations counts 1, 1/2 or 0,
  and the AUC is the mean over all such pairs.
\<close>

definition pair_score :: "real \<Rightarrow> real \<Rightarrow> real" where
  "pair_score p n = (if n < p then 1 else if p = n then 1 / 2 else 0)"

definition pos_scores :: "bool list \<Rightarrow> real list \<Rightarrow> real list" where
  "pos_scores y_true y_score = map snd (filter fst (zip y_true y_score))"

definition neg_scores :: "bool list \<Rightarrow> real list \<Rightarrow> real list" where
  "neg_scores y_true y_score = map snd (filter (\<lambda>ls. \<not> fst ls) (zip y_true y_score))"

definition rank_auc :: "bool list \<Rightarrow> real list \<Rightarrow> real" where
  "rank_auc y_true y_score =
     (\<Sum>p\<leftarrow>pos_scores y_true y_score. \<Sum>n\<leftarrow>neg_scores y_true y_score. pair_score p n)
       / (real (length (pos_scores y_true y_score)) * real (length (neg_scores y_true y_score)))"

text \<open>
  What the routine does with an input for which the AUC is not defined. It raises
  ValueError for an empty array ("Found array with 0 sample(s)"). For labels that do
  not hold exactly two classes it raises nothing: it issues the warning below and
  returns nan. Only then, on the way to the ROC curve, does it compare the lengths and
  raise ValueError when they differ ("Found input variables with inconsistent numbers of
  samples").
\<close>

definition one_class_warning :: string where
  "one_class_warning =
     ''Only one class is present in y_true. ROC AUC score is not defined in that case.''"

definition roc_auc_score ::
  "bool list \<Rightarrow> real list \<Rightarrow> world \<Rightarrow> (error + pyfloat) \<times> world" where
  "roc_auc_score y_true y_score w =
     (if y_true = [] \<or> y_score = [] then (Inl ValueError, w)
      else if length (unique y_true) \<noteq> 2 then (Inr NaN, warn one_class_warning w)
      else if length y_true \<noteq> length y_score then (Inl ValueError, w)
      else (Inr (Num (rank_auc y_true y_score)), w))"

text \<open>
  Modelled from the spec: \<^verbatim>\<open>np.percentile(a, q)\<close> is a library routine. The spec (4.1,
  step 5) describes it as "linear interpolation between order statistics, per standard
  percentile definition": with \<open>n\<close> values the \<open>q\<close>-th percentile sits at the virtual
  index \<open>q / 100 * (n - 1)\<close> of the sorted values and is interpolated between the two
  neighbouring order statistics. numpy rejects \<open>q\<close> outside \<open>[0, 100]\<close> with a
  ValueError, fails on an empty array with an IndexError when it reads the last element,
  and answers nan when an entry is nan.
\<close>

definition percentile :: "pyfloat list \<Rightarrow> real \<Rightarrow> error + pyfloat" where
  "percentile a q =
     (if q < 0 \<or> 100 < q then Inl ValueError
      else if a = [] then Inl IndexError
      else if NaN \<in> set a then Inr NaN
      else
        let s = sort (finite_part a);
            n = length s;
            h = q / 100 * real (n - 1);
            lo = nat \<lfloor>h\<rfloor>;
            hi = min (lo + 1) (n - 1);
            gamma = h - real lo
        in Inr (Num (s ! lo + gamma * (s ! hi - s ! lo))))"

text \<open>\<^verbatim>\<open>math.sqrt\<close>: ValueError ("math domain error") on a negative argument.\<close>

definition math_sqrt :: "real \<Rightarrow> error + real" where
  "math_sqrt x = (if x < 0 then Inl ValueError else Inr (sqrt x))"

subsection \<open>The bootstrap estimator: \<^verbatim>\<open>roc_auc_ci\<close> of \<^verbatim>\<open>roc_utils.py\<close>\<close>

text \<open>The docstring (lines 24-43) that \<^verbatim>\<open>help=True\<close> prints, line by line.\<close>

definition roc_auc_ci_doc :: "string list" where
  \<open>roc_auc_ci_doc =
     ['''',
      ''    Compute the ROC AUC value and its 95% confidence interval using bootstrapping.'',
      '''',
      ''    Args:'',
      ''        y_true (array-like): True binary labels (0 or 1).'',
      ''        y_score (array-like): Predicted continuous scores or probabilities.'',
      ''        help (bool): If True, print this docstring and return None.'',
      ''        n_bootstrap (int): Number of bootstrap resamples for CI estimation.'',
      ''        random_state (int): Random seed for reproducibility.'',
      '''',
      ''    Returns:'',
      ''        dict: {'',
      ''            "AUC": float,           # Calculated AUC value'',
      ''            "CI": (lower, mean, upper)'',
      ''        }'',
      '''',
      ''    Example:'',
      ''        >>> result = roc_auc_ci([0, 1, 1, 0], [0.2, 0.8, 0.7, 0.3])'',
      ''        >>> print(result["AUC"], result["CI"])'',
      ''    '']\<close>

text \<open>
  Lines 55-60, the loop \<^verbatim>\<open>for _ in range(n_bootstrap)\<close>: the first argument counts the
  iterations that remain; the generator, the list \<^verbatim>\<open>boot_scores\<close> and the external
  state are the state. \<^verbatim>\<open>continue\<close> goes on with the next iteration and leaves
  \<^verbatim>\<open>boot_scores\<close> as it is.
\<close>

fun boot_loop ::
  "nat \<Rightarrow> rng \<Rightarrow> bool list \<Rightarrow> real list \<Rightarrow> pyfloat list \<Rightarrow> world
     \<Rightarrow> (error + (pyfloat list \<times> rng)) \<times> world" where
  "boot_loop 0 g y_true y_score boot_scores w = (Inr (boot_scores, g), w)"
| "boot_loop (Suc k) g y_true y_score boot_scores w =
     (case randint g 0 (length y_score) (length y_score) of
        Inl e \<Rightarrow> (Inl e, w)
      | Inr (indices, g') \<Rightarrow>
          (case index_array y_true indices of
             Inl e \<Rightarrow> (Inl e, w)
           | Inr yt \<Rightarrow>
               if length (unique yt) < 2 then boot_loop k g' y_true y_score boot_scores w
               else
                 (case index_array y_score indices of
                    Inl e \<Rightarrow> (Inl e, w)
                  | Inr ys \<Rightarrow>
                      (case roc_auc_score yt ys w of
                         (Inl e, w') \<Rightarrow> (Inl e, w')
                       | (Inr boot_auc, w') \<Rightarrow>
                           boot_loop k g' y_true y_score (boot_scores @ [boot_auc]) w'))))"

text \<open>
  Lines 48-66, the function after the \<^verbatim>\<open>help\<close> gate. The two calls of
  \<^verbatim>\<open>np.array\<close> (lines 48-49) copy the inputs into arrays and change no value. No
  line checks the input or the bootstrap distribution: what fails, fails inside a
  library routine.
\<close>

definition roc_auc_ci_compute ::
  "(int \<Rightarrow> nat \<Rightarrow> nat) \<Rightarrow> bool list \<Rightarrow> real list \<Rightarrow> int \<Rightarrow> int \<Rightarrow> world
     \<Rightarrow> (error + result option) \<times> world" where
  "roc_auc_ci_compute mt y_true y_score n_bootstrap random_state w =
     (case roc_auc_score y_true y_score w of
        (Inl e, w1) \<Rightarrow> (Inl e, w1)
      | (Inr auc_val, w1) \<Rightarrow>
          (case RandomState mt random_state of
             Inl e \<Rightarrow> (Inl e, w1)
           | Inr g \<Rightarrow>
               (case boot_loop (nat n_bootstrap) g y_true y_score [] w1 of
                  (Inl e, w2) \<Rightarrow> (Inl e, w2)
                | (Inr (boot_scores, g'), w2) \<Rightarrow>
                    let sorted_scores = np_sort boot_scores in
                    (case percentile sorted_scores 2.5 of
                       Inl e \<Rightarrow> (Inl e, w2)
                     | Inr ci_lower \<Rightarrow>
                         (case percentile sorted_scores 97.5 of
                            Inl e \<Rightarrow> (Inl e, w2)
                          | Inr ci_upper \<Rightarrow>
                              (Inr (Some \<lparr>AUC = auc_val,
                                          CI = (ci_lower, auc_val, ci_upper)\<rparr>), w2))))))"

text \<open>
  The whole function: with \<^verbatim>\<open>help\<close> set it prints its docstring and returns \<^verbatim>\<open>None\<close>
  (lines 44-46); otherwise it computes.
\<close>

definition roc_auc_ci ::
  "(int \<Rightarrow> nat \<Rightarrow> nat) \<Rightarrow> world \<Rightarrow> bool list \<Rightarrow> real list \<Rightarrow> bool \<Rightarrow> int \<Rightarrow> int
     \<Rightarrow> (error + result option) \<times> world" where
  "roc_auc_ci mt w y_true y_score help n_bootstrap random_state =
     (if help then (Inr None, w\<lparr>stdout := stdout w @ roc_auc_ci_doc\<rparr>)
      else roc_auc_ci_compute mt y_true y_score n_bootstrap random_state w)"

subsection \<open>The analytic estimator: \<^verbatim>\<open>roc_auc_ci\<close> of \<^verbatim>\<open>test.py\<close>\<close>

text \<open>
  Lines 16-29. \<^verbatim>\<open>y_true.count(1)\<close> and \<^verbatim>\<open>y_true.count(0)\<close> count the positive and the
  negative labels. A division by zero raises ZeroDivisionError. When the scorer has
  answered nan, every float of lines 20-24 is nan: the only thing that can still happen
  is the division of line 22 by \<^verbatim>\<open>N1*N2\<close>, which raises when that integer is 0; nan
  is neither below 0 nor above 1, so that lines 25-28 leave the bounds as they are.
\<close>

definition py_div :: "real \<Rightarrow> real \<Rightarrow> error + real" where
  "py_div a b = (if b = 0 then Inl ZeroDivisionError else Inr (a / b))"

definition test_roc_auc_ci ::
  "bool list \<Rightarrow> real list \<Rightarrow> world \<Rightarrow> (error + ((pyfloat \<times> pyfloat) \<times> pyfloat)) \<times> world" where
  "test_roc_auc_ci y_true y_score w =
     (case roc_auc_score y_true y_score w of
        (Inl e, w') \<Rightarrow> (Inl e, w')
      | (Inr NaN, w') \<Rightarrow>
          (if int (count_list y_true True) * int (count_list y_true False) = 0
           then Inl ZeroDivisionError
           else Inr ((NaN, NaN), NaN), w')
      | (Inr (Num auc), w') \<Rightarrow>
          (let N1 = int (count_list y_true True);
               N2 = int (count_list y_true False)
           in
           (case py_div auc (2 - auc) of
              Inl e \<Rightarrow> Inl e
            | Inr Q1 \<Rightarrow>
                (case py_div (2 * auc\<^sup>2) (1 + auc) of
                   Inl e \<Rightarrow> Inl e
                 | Inr Q2 \<Rightarrow>
                     (case py_div (auc * (1 - auc) + real_of_int (N1 - 1) * (Q1 - auc\<^sup>2)
                                     + real_of_int (N2 - 1) * (Q2 - auc\<^sup>2))
                                  (real_of_int (N1 * N2)) of
                        Inl e \<Rightarrow> Inl e
                      | Inr v \<Rightarrow>
                          (case math_sqrt v of
                             Inl e \<Rightarrow> Inl e
                           | Inr SE_AUC \<Rightarrow>
                               let lower = auc - 1.96 * SE_AUC;
                                   upper = auc + 1.96 * SE_AUC;
                                   lower' = (if lower < 0 then 0 else lower);
                                   upper' = (if 1 < upper then 1 else upper)
                               in Inr ((Num lower', Num upper'), Num SE_AUC))))), w'))"

subsection \<open>Notions of the specification\<close>

text \<open>
  The inputs the spec calls valid (4.1): labels and scores of equal length \<open>N \<ge> 2\<close>,
  both classes present, a positive number of resamples. The seed is an integer by its
  type.
\<close>

definition valid_input :: "bool list \<Rightarrow> real list \<Rightarrow> int \<Rightarrow> bool" where
  "valid_input labels scores bootstrap_count \<longleftrightarrow>
     length labels = length scores \<and> 2 \<le> length labels
       \<and> True \<in> set labels \<and> False \<in> set labels \<and> 0 < bootstrap_count"

text \<open>
  The ordering the spec states for a returned result (section 8). A comparison with nan
  is false.
\<close>

fun float_le :: "pyfloat \<Rightarrow> pyfloat \<Rightarrow> bool" where
  "float_le (Num a) (Num b) = (a \<le> b)"
| "float_le a b = False"

definition ci_ordered :: "result \<Rightarrow> bool" where
  "ci_ordered r =
     (case CI r of (lower, middle, upper) \<Rightarrow>
        float_le (Num 0) lower \<and> float_le lower (AUC r) \<and> float_le (AUC r) upper
          \<and> float_le upper (Num 1))"

text \<open>The generator that \<^verbatim>\<open>RandomState(seed)\<close> returns for an accepted seed.\<close>

definition seeded :: "(int \<Rightarrow> nat \<Rightarrow> nat) \<Rightarrow> int \<Rightarrow> rng" where
  "seeded mt seed = \<lparr>stream = mt seed, pos = 0\<rparr>"

text \<open>
  The bootstrap distribution in closed form, after the spec (4.1, step 3): the index
  vector of iteration \<open>i\<close> (counted from 0) of a loop that starts with generator \<open>g\<close>
  over \<open>N\<close> observations; what one index vector contributes (nothing when the resampled
  labels hold fewer than two distinct classes, else the AUC of the resampled pairs); and
  the contributions of \<open>k\<close> iterations in order.
\<close>

definition resample :: "rng \<Rightarrow> nat \<Rightarrow> nat \<Rightarrow> nat list" where
  "resample g N i = map (\<lambda>j. stream g (pos g + i * N + j) mod N) [0..<N]"

definition contribution :: "bool list \<Rightarrow> real list \<Rightarrow> nat list \<Rightarrow> real list" where
  "contribution y_true y_score indices =
     (if card (set (map (\<lambda>i. y_true ! i) indices)) < 2 then []
      else [rank_auc (map (\<lambda>i. y_true ! i) indices) (map (\<lambda>i. y_score ! i) indices)])"

definition boot_distribution :: "rng \<Rightarrow> bool list \<Rightarrow> real list \<Rightarrow> nat \<Rightarrow> real list" where
  "boot_distribution g y_true y_score k =
     concat (map (\<lambda>i. contribution y_true y_score (resample g (length y_score) i)) [0..<k])"

text \<open>
  Linear interpolation between order statistics, after the spec (4.1, step 5): the value
  at the virtual index \<open>h\<close> of the sorted list \<open>s\<close>.
\<close>

definition interpolate :: "real list \<Rightarrow> real \<Rightarrow> real" where
  "interpolate s h =
     (let lo = nat \<lfloor>h\<rfloor>; hi = min (lo + 1) (length s - 1)
      in s ! lo + (h - real lo) * (s ! hi - s ! lo))"

text \<open>The \<open>q\<close>-th percentile of a non-empty list of numbers, by that interpolation.\<close>

definition percentile_value :: "real list \<Rightarrow> real \<Rightarrow> real" where
  "percentile_value b q = interpolate (sort b) (q / 100 * real (length b - 1))"

text \<open>
  For concrete runs: a generator that delivers the numbers of a list and zeros after
  them, whatever the seed, and an external state in which nothing has happened yet.
\<close>

definition mt_of_list :: "nat list \<Rightarrow> int \<Rightarrow> nat \<Rightarrow> nat" where
  "mt_of_list xs seed k = (if k < length xs then xs ! k else 0)"

definition idle_world :: world where
  "idle_world = \<lparr>stdout = [], warnings = [], global_rng = \<lparr>stream = (\<lambda>k. 0), pos = 0\<rparr>\<rparr>"

section \<open>Properties of the library models\<close>

subsection \<open>Distinct labels\<close>

lemma unique_bool_card: "length (unique (xs::bool list)) = card (set xs)"
  by (simp add: unique_def length_remdups_card_conv)

lemma unique_bool_two:
  "length (unique (xs::bool list)) = 2 \<longleftrightarrow> True \<in> set xs \<and> False \<in> set xs"
proof -
  have sub: "set xs \<subseteq> {True, False}" by auto
  show ?thesis
  proof
    assume two: "length (unique xs) = 2"
    have "set xs = {True, False}"
    proof (rule card_subset_eq [OF _ sub])
      show "finite {True, False}" by simp
      show "card (set xs) = card {True, False}" using two by (simp add: unique_bool_card)
    qed
    then show "True \<in> set xs \<and> False \<in> set xs" by simp
  next
    assume "True \<in> set xs \<and> False \<in> set xs"
    then have "set xs = {True, False}" using sub by auto
    then show "length (unique xs) = 2" by (simp add: unique_bool_card)
  qed
qed

lemma unique_bool_le2: "length (unique (xs::bool list)) \<le> 2"
proof -
  have "card (set xs) \<le> card {True, False}"
    by (rule card_mono) auto
  then show ?thesis by (simp add: unique_bool_card)
qed

lemma unique_bool_less2:
  "length (unique (xs::bool list)) < 2 \<longleftrightarrow> \<not> (True \<in> set xs \<and> False \<in> set xs)"
  using unique_bool_two [of xs] unique_bool_le2 [of xs] by linarith

subsection \<open>The rank-based AUC lies in the unit interval\<close>

lemma pair_score_bounds: "0 \<le> pair_score p n \<and> pair_score p n \<le> 1"
  by (simp add: pair_score_def)

lemma sum_list_le_length:
  fixes f :: "'a \<Rightarrow> real"
  assumes "\<And>x. x \<in> set xs \<Longrightarrow> f x \<le> c"
  shows "sum_list (map f xs) \<le> real (length xs) * c"
  using assms by (induction xs) (auto simp: algebra_simps add_mono)

lemma rank_auc_nonneg: "0 \<le> rank_auc y_true y_score"
  unfolding rank_auc_def
  by (intro divide_nonneg_nonneg sum_list_nonneg mult_nonneg_nonneg)
     (auto simp: pair_score_bounds intro!: sum_list_nonneg)

lemma rank_auc_le_one: "rank_auc y_true y_score \<le> 1"
proof -
  let ?P = "pos_scores y_true y_score" and ?N = "neg_scores y_true y_score"
  have inner: "(\<Sum>n\<leftarrow>?N. pair_score p n) \<le> real (length ?N) * 1" for p
    by (rule sum_list_le_length) (simp add: pair_score_bounds)
  have outer: "(\<Sum>p\<leftarrow>?P. \<Sum>n\<leftarrow>?N. pair_score p n) \<le> real (length ?P) * real (length ?N)"
    by (rule sum_list_le_length) (use inner in simp)
  show ?thesis
  proof (cases "real (length ?P) * real (length ?N) = 0")
    case True
    then have "rank_auc y_true y_score = 0" unfolding rank_auc_def by (simp only: div_by_0)
    then show ?thesis by simp
  next
    case False
    then have "0 < real (length ?P) * real (length ?N)" by simp
    then show ?thesis unfolding rank_auc_def using outer by (simp add: divide_le_eq)
  qed
qed

subsection \<open>The scorer, case by case\<close>

lemma roc_auc_score_empty:
  "y_true = [] \<or> y_score = [] \<Longrightarrow> roc_auc_score y_true y_score w = (Inl ValueError, w)"
  by (simp add: roc_auc_score_def)

lemma roc_auc_score_one_class:
  "y_true \<noteq> [] \<Longrightarrow> y_score \<noteq> [] \<Longrightarrow> \<not> (True \<in> set y_true \<and> False \<in> set y_true) \<Longrightarrow>
     roc_auc_score y_true y_score w = (Inr NaN, warn one_class_warning w)"
  by (simp add: roc_auc_score_def unique_bool_two)

lemma roc_auc_score_mismatch:
  "y_true \<noteq> [] \<Longrightarrow> y_score \<noteq> [] \<Longrightarrow> True \<in> set y_true \<Longrightarrow> False \<in> set y_true \<Longrightarrow>
     length y_true \<noteq> length y_score \<Longrightarrow>
     roc_auc_score y_true y_score w = (Inl ValueError, w)"
  by (simp add: roc_auc_score_def unique_bool_two)

lemma roc_auc_score_two_class:
  assumes "True \<in> set y_true" and "False \<in> set y_true"
    and "length y_true = length y_score"
  shows "roc_auc_score y_true y_score w = (Inr (Num (rank_auc y_true y_score)), w)"
proof -
  have "y_true \<noteq> []" using assms(1) by auto
  moreover from this have "y_score \<noteq> []" using assms(3) by auto
  ultimately show ?thesis using assms by (simp add: roc_auc_score_def unique_bool_two)
qed

lemma roc_auc_score_Num:
  assumes "roc_auc_score y_true y_score w = (Inr (Num a), w')"
  shows "True \<in> set y_true \<and> False \<in> set y_true \<and> length y_true = length y_score
         \<and> a = rank_auc y_true y_score \<and> w' = w"
  using assms by (auto simp: roc_auc_score_def unique_bool_two split: if_splits)

lemma roc_auc_score_NaN:
  assumes "roc_auc_score y_true y_score w = (Inr NaN, w')"
  shows "\<not> (True \<in> set y_true \<and> False \<in> set y_true)"
  using assms by (auto simp: roc_auc_score_def unique_bool_two split: if_splits)

section \<open>The bootstrap loop\<close>

lemma randint_resample:
  "0 < N \<Longrightarrow> randint g 0 N N = Inr (resample g N 0, g\<lparr>pos := pos g + N\<rparr>)"
  by (simp add: randint_def resample_def)

lemma resample_less: "0 < N \<Longrightarrow> i \<in> set (resample g N k) \<Longrightarrow> i < N"
  by (auto simp: resample_def)

lemma length_resample: "length (resample g N k) = N"
  by (simp add: resample_def)

lemma resample_shift: "resample (g\<lparr>pos := pos g + N\<rparr>) N i = resample g N (Suc i)"
  by (simp add: resample_def ac_simps)

lemma index_array_ok:
  "\<forall>i\<in>set indices. i < length a \<Longrightarrow> index_array a indices = Inr (map (\<lambda>i. a ! i) indices)"
  by (simp add: index_array_def list_all_iff)

lemma boot_distribution_0: "boot_distribution g y_true y_score 0 = []"
  by (simp add: boot_distribution_def)

lemma boot_distribution_Suc_front:
  "boot_distribution g y_true y_score (Suc k) =
     contribution y_true y_score (resample g (length y_score) 0)
       @ boot_distribution (g\<lparr>pos := pos g + length y_score\<rparr>) y_true y_score k"
proof -
  have "[0..<Suc k] = 0 # map Suc [0..<k]"
    by (simp add: upt_conv_Cons map_Suc_upt del: upt_Suc)
  then show ?thesis
    by (simp add: boot_distribution_def resample_shift comp_def del: upt_Suc)
qed

lemma boot_distribution_Suc:
  "boot_distribution g y_true y_score (Suc k) =
     boot_distribution g y_true y_score k
       @ contribution y_true y_score (resample g (length y_score) k)"
  by (simp add: boot_distribution_def)

lemma length_contribution: "length (contribution y_true y_score indices) \<le> 1"
  by (simp add: contribution_def)

lemma length_boot_distribution: "length (boot_distribution g y_true y_score k) \<le> k"
proof (induction k)
  case 0
  show ?case by (simp add: boot_distribution_0)
next
  case (Suc k)
  then show ?case
    using length_contribution [of y_true y_score "resample g (length y_score) k"]
    by (simp add: boot_distribution_Suc)
qed

lemma boot_iteration:
  assumes len: "length y_true = length y_score" and ne: "y_score \<noteq> []"
  shows "boot_loop (Suc k) g y_true y_score acc w =
           boot_loop k (g\<lparr>pos := pos g + length y_score\<rparr>) y_true y_score
             (acc @ map Num (contribution y_true y_score (resample g (length y_score) 0))) w"
proof -
  let ?N = "length y_score"
  let ?idx = "resample g ?N 0"
  let ?yt = "map (\<lambda>i. y_true ! i) ?idx" and ?ys = "map (\<lambda>i. y_score ! i) ?idx"
  have N: "0 < ?N" using ne by simp
  have r: "randint g 0 ?N ?N = Inr (?idx, g\<lparr>pos := pos g + ?N\<rparr>)"
    by (rule randint_resample [OF N])
  have in_range: "\<forall>i\<in>set ?idx. i < ?N" using resample_less [OF N] by blast
  have it: "index_array y_true ?idx = Inr ?yt"
    by (rule index_array_ok) (use in_range len in simp)
  have is': "index_array y_score ?idx = Inr ?ys"
    by (rule index_array_ok) (use in_range in simp)
  show ?thesis
  proof (cases "length (unique ?yt) < 2")
    case True
    then have "contribution y_true y_score ?idx = []"
      by (simp add: contribution_def unique_bool_card)
    with True r it show ?thesis by simp
  next
    case False
    then have c: "contribution y_true y_score ?idx = [rank_auc ?yt ?ys]"
      by (simp add: contribution_def unique_bool_card)
    from False have both: "True \<in> set ?yt \<and> False \<in> set ?yt"
      using unique_bool_less2 [of ?yt] by blast
    have "roc_auc_score ?yt ?ys w = (Inr (Num (rank_auc ?yt ?ys)), w)"
      using both by (intro roc_auc_score_two_class) simp_all
    with False r it is' c show ?thesis by simp
  qed
qed

lemma boot_loop_eq:
  assumes len: "length y_true = length y_score" and ne: "y_score \<noteq> []"
  shows "boot_loop k g y_true y_score acc w =
           (Inr (acc @ map Num (boot_distribution g y_true y_score k),
                 g\<lparr>pos := pos g + k * length y_score\<rparr>), w)"
proof (induction k arbitrary: g acc)
  case 0
  show ?case by (simp add: boot_distribution_0)
next
  case (Suc k)
  show ?case
    by (simp only: boot_iteration [OF len ne] Suc.IH boot_distribution_Suc_front)
       (simp add: ac_simps)
qed

text \<open>
  With labels of one class no resample is ever kept: an iteration either reads past the
  end of the labels or is skipped, and the scorer is not called.
\<close>

lemma index_array_subset:
  "index_array a indices = Inr b \<Longrightarrow> set b \<subseteq> set a"
  by (auto simp: index_array_def list_all_iff split: if_splits)

lemma boot_loop_one_class:
  assumes ne: "y_score \<noteq> []" and one: "\<not> (True \<in> set y_true \<and> False \<in> set y_true)"
  shows "boot_loop k g y_true y_score acc w = (Inl IndexError, w)
         \<or> (\<exists>g'. boot_loop k g y_true y_score acc w = (Inr (acc, g'), w))"
proof (induction k arbitrary: g)
  case 0
  show ?case by simp
next
  case (Suc k)
  let ?N = "length y_score"
  let ?idx = "resample g ?N 0"
  let ?g' = "g\<lparr>pos := pos g + ?N\<rparr>"
  have N: "0 < ?N" using ne by simp
  have r: "randint g 0 ?N ?N = Inr (?idx, ?g')"
    by (rule randint_resample [OF N])
  show ?case
  proof (cases "index_array y_true ?idx")
    case (Inl e)
    then have "e = IndexError" by (auto simp: index_array_def split: if_splits)
    with Inl r show ?thesis by simp
  next
    case (Inr yt)
    have "set yt \<subseteq> set y_true" by (rule index_array_subset [OF Inr])
    with one have "\<not> (True \<in> set yt \<and> False \<in> set yt)" by blast
    then have "length (unique yt) < 2" by (simp add: unique_bool_less2)
    with Inr r have "boot_loop (Suc k) g y_true y_score acc w
                       = boot_loop k ?g' y_true y_score acc w"
      by simp
    with Suc.IH [of ?g'] show ?thesis by simp
  qed
qed

section \<open>Percentiles\<close>

lemma interpolate_between:
  assumes srt: "sorted s" and h0: "0 \<le> h" and hn: "h \<le> real (length s - 1)" and ne: "s \<noteq> []"
  shows "s ! nat \<lfloor>h\<rfloor> \<le> interpolate s h"
    and "interpolate s h \<le> s ! min (nat \<lfloor>h\<rfloor> + 1) (length s - 1)"
    and "nat \<lfloor>h\<rfloor> < length s"
proof -
  let ?lo = "nat \<lfloor>h\<rfloor>" and ?n = "length s"
  let ?hi = "min (?lo + 1) (?n - 1)"
  have n: "0 < ?n" using ne by simp
  have lo_le: "real ?lo \<le> h" using h0 by (simp add: of_nat_nat)
  have "real ?lo \<le> real (?n - 1)" using lo_le hn by linarith
  then have lo_n: "?lo \<le> ?n - 1" by simp
  then show lo_lt: "?lo < ?n" using n by linarith
  have "?hi \<le> ?n - 1" by simp
  then have hi_lt: "?hi < ?n" using n by linarith
  have lo_hi: "?lo \<le> ?hi" using lo_n by simp
  have step: "s ! ?lo \<le> s ! ?hi"
    using srt lo_hi hi_lt by (simp add: sorted_nth_mono)
  have g0: "0 \<le> h - real ?lo" using lo_le by simp
  have "real ?lo = real_of_int \<lfloor>h\<rfloor>" using h0 by (simp add: of_nat_nat)
  moreover have "h < real_of_int \<lfloor>h\<rfloor> + 1" by linarith
  ultimately have g1: "h - real ?lo \<le> 1" by linarith
  have eq: "interpolate s h = s ! ?lo + (h - real ?lo) * (s ! ?hi - s ! ?lo)"
    by (simp add: interpolate_def Let_def)
  have "0 \<le> (h - real ?lo) * (s ! ?hi - s ! ?lo)"
    using g0 step by simp
  then show "s ! ?lo \<le> interpolate s h" using eq by linarith
  have "(h - real ?lo) * (s ! ?hi - s ! ?lo) \<le> 1 * (s ! ?hi - s ! ?lo)"
    using g1 step by (intro mult_right_mono) auto
  then have "(h - real ?lo) * (s ! ?hi - s ! ?lo) \<le> s ! ?hi - s ! ?lo" by simp
  then show "interpolate s h \<le> s ! ?hi" using eq by linarith
qed

lemma interpolate_mono:
  assumes srt: "sorted s" and ne: "s \<noteq> []"
    and h0: "0 \<le> h1" and h12: "h1 \<le> h2" and hn: "h2 \<le> real (length s - 1)"
  shows "interpolate s h1 \<le> interpolate s h2"
proof -
  let ?n = "length s"
  let ?lo1 = "nat \<lfloor>h1\<rfloor>" and ?lo2 = "nat \<lfloor>h2\<rfloor>"
  let ?hi1 = "min (?lo1 + 1) (?n - 1)"
  have h20: "0 \<le> h2" and h1n: "h1 \<le> real (?n - 1)" using h0 h12 hn by linarith+
  have lo12: "?lo1 \<le> ?lo2" using h12 by (simp add: floor_mono nat_mono)
  show ?thesis
  proof (cases "?lo1 = ?lo2")
    case True
    let ?hi = "min (?lo2 + 1) (?n - 1)"
    have lo_lt: "?lo2 < ?n" by (rule interpolate_between(3) [OF srt h20 hn ne])
    have "?hi \<le> ?n - 1" by simp
    then have hi_lt: "?hi < ?n" using lo_lt by linarith
    have "s ! ?lo2 \<le> s ! ?hi"
      using srt lo_lt hi_lt by (intro sorted_nth_mono) auto
    then have "(h1 - real ?lo2) * (s ! ?hi - s ! ?lo2) \<le> (h2 - real ?lo2) * (s ! ?hi - s ! ?lo2)"
      using h12 by (intro mult_right_mono) auto
    then show ?thesis using True by (simp add: interpolate_def Let_def)
  next
    case False
    then have lt: "?lo1 + 1 \<le> ?lo2" using lo12 by linarith
    have lo2_lt: "?lo2 < ?n" by (rule interpolate_between(3) [OF srt h20 hn ne])
    have "?hi1 \<le> ?lo2" using lt by simp
    then have mid: "s ! ?hi1 \<le> s ! ?lo2"
      using srt lo2_lt by (intro sorted_nth_mono) auto
    have "interpolate s h1 \<le> s ! ?hi1"
      by (rule interpolate_between(2) [OF srt h0 h1n ne])
    moreover have "s ! ?lo2 \<le> interpolate s h2"
      by (rule interpolate_between(1) [OF srt h20 hn ne])
    ultimately show ?thesis using mid by linarith
  qed
qed

lemma virtual_index_bounds:
  assumes "0 \<le> q" "q \<le> 100"
  shows "0 \<le> q / 100 * real n" and "q / 100 * real n \<le> real n"
proof -
  show "0 \<le> q / 100 * real n" using assms by simp
  have "q / 100 * real n \<le> 1 * real n"
    using assms by (intro mult_right_mono) auto
  then show "q / 100 * real n \<le> real n" by simp
qed

lemma sort_eq_Nil_iff: "sort a = [] \<longleftrightarrow> a = []"
  by (metis length_0_conv length_sort)

lemma percentile_value_mono:
  assumes q1: "0 \<le> q1" and q12: "q1 \<le> q2" and q2: "q2 \<le> 100" and ne: "b \<noteq> []"
  shows "percentile_value b q1 \<le> percentile_value b q2"
proof -
  let ?s = "sort b" and ?m = "real (length b - 1)"
  have sne: "?s \<noteq> []" using ne by (simp add: sort_eq_Nil_iff)
  have "q1 / 100 * ?m \<le> q2 / 100 * ?m"
    using q12 by (intro mult_right_mono) auto
  moreover have "0 \<le> q1 / 100 * ?m" using q1 by simp
  moreover have "q2 / 100 * ?m \<le> real (length ?s - 1)"
    using virtual_index_bounds(2) [of q2 "length b - 1"] q1 q12 q2 by simp
  ultimately show ?thesis
    unfolding percentile_value_def using sne by (intro interpolate_mono) auto
qed

lemma percentile_value_in_range:
  assumes q1: "0 \<le> q" and q2: "q \<le> 100" and ne: "b \<noteq> []"
    and rng: "\<forall>x\<in>set b. c \<le> x \<and> x \<le> d"
  shows "c \<le> percentile_value b q \<and> percentile_value b q \<le> d"
proof -
  let ?s = "sort b" and ?h = "q / 100 * real (length b - 1)"
  have sne: "?s \<noteq> []" using ne by (simp add: sort_eq_Nil_iff)
  have h0: "0 \<le> ?h" using q1 by simp
  have hn: "?h \<le> real (length ?s - 1)"
    using virtual_index_bounds(2) [OF q1 q2, of "length b - 1"] by simp
  have srt: "sorted ?s" by simp
  have lo: "nat \<lfloor>?h\<rfloor> < length ?s" by (rule interpolate_between(3) [OF srt h0 hn sne])
  have "min (nat \<lfloor>?h\<rfloor> + 1) (length ?s - 1) \<le> length ?s - 1" by simp
  then have hi: "min (nat \<lfloor>?h\<rfloor> + 1) (length ?s - 1) < length ?s"
    using lo by linarith
  have "?s ! nat \<lfloor>?h\<rfloor> \<in> set ?s" using lo by (rule nth_mem)
  then have a1: "c \<le> ?s ! nat \<lfloor>?h\<rfloor>" using rng by simp
  have "?s ! min (nat \<lfloor>?h\<rfloor> + 1) (length ?s - 1) \<in> set ?s" using hi by (rule nth_mem)
  then have a2: "?s ! min (nat \<lfloor>?h\<rfloor> + 1) (length ?s - 1) \<le> d" using rng by simp
  from interpolate_between(1,2) [OF srt h0 hn sne] a1 a2 show ?thesis
    unfolding percentile_value_def by linarith
qed

lemma percentile_value_single: "percentile_value [x] q = x"
  by (simp add: percentile_value_def interpolate_def)

lemma finite_part_map_Num: "finite_part (map Num b) = b"
  by (induction b) (simp_all add: finite_part_def)

lemma NaN_notin_map_Num: "NaN \<notin> set (map Num b)"
  by auto

lemma np_sort_map_Num: "np_sort (map Num b) = map Num (sort b)"
proof -
  have "filter (\<lambda>v. v = NaN) (map Num b) = []" by (induction b) simp_all
  then show ?thesis by (simp add: np_sort_def finite_part_map_Num)
qed

lemma np_sort_Nil: "np_sort [] = []"
  by (simp add: np_sort_def finite_part_def)

lemma percentile_Nil: "0 \<le> q \<Longrightarrow> q \<le> 100 \<Longrightarrow> percentile [] q = Inl IndexError"
  by (simp add: percentile_def)

lemma percentile_map_Num:
  assumes "0 \<le> q" and "q \<le> 100" and "b \<noteq> []"
  shows "percentile (map Num b) q = Inr (Num (percentile_value b q))"
proof -
  have "NaN \<notin> Num ` set b" by auto
  then show ?thesis
    using assms
    by (simp add: percentile_def finite_part_map_Num percentile_value_def interpolate_def
        Let_def)
qed

lemma percentile_value_sort: "percentile_value (sort b) q = percentile_value b q"
  by (simp add: percentile_value_def sorted_sort_id)

lemma percentile_sorted_scores:
  assumes "0 \<le> q" and "q \<le> 100" and "b \<noteq> []"
  shows "percentile (np_sort (map Num b)) q = Inr (Num (percentile_value b q))"
  using percentile_map_Num [of q "sort b"] assms
  by (simp add: np_sort_map_Num sort_eq_Nil_iff percentile_value_sort)


section \<open>The estimator as a whole\<close>

lemma RandomState_seeded:
  "0 \<le> seed \<Longrightarrow> seed < 2 ^ 32 \<Longrightarrow> RandomState mt seed = Inr (seeded mt seed)"
  by (simp add: RandomState_def seeded_def)

lemma RandomState_rejects:
  "seed < 0 \<or> 2 ^ 32 \<le> seed \<Longrightarrow> RandomState mt seed = Inl ValueError"
  by (simp add: RandomState_def)

lemma boot_distribution_range:
  "x \<in> set (boot_distribution g y_true y_score k) \<Longrightarrow> 0 \<le> x \<and> x \<le> 1"
  by (auto simp: boot_distribution_def contribution_def rank_auc_nonneg rank_auc_le_one
      split: if_splits)

text \<open>Every run of lines 48-66, by the kind of its input.\<close>

lemma compute_empty:
  "y_true = [] \<or> y_score = [] \<Longrightarrow>
     roc_auc_ci_compute mt y_true y_score n_bootstrap random_state w = (Inl ValueError, w)"
  by (simp add: roc_auc_ci_compute_def roc_auc_score_empty)

lemma compute_mismatch:
  "y_true \<noteq> [] \<Longrightarrow> y_score \<noteq> [] \<Longrightarrow> True \<in> set y_true \<Longrightarrow> False \<in> set y_true \<Longrightarrow>
     length y_true \<noteq> length y_score \<Longrightarrow>
     roc_auc_ci_compute mt y_true y_score n_bootstrap random_state w = (Inl ValueError, w)"
  by (simp add: roc_auc_ci_compute_def roc_auc_score_mismatch)

lemma compute_one_class:
  assumes nt: "y_true \<noteq> []" and ns: "y_score \<noteq> []"
    and one: "\<not> (True \<in> set y_true \<and> False \<in> set y_true)"
  shows "roc_auc_ci_compute mt y_true y_score n_bootstrap random_state w =
           (Inl (if random_state < 0 \<or> 2 ^ 32 \<le> random_state then ValueError else IndexError),
            warn one_class_warning w)"
proof (cases "random_state < 0 \<or> 2 ^ 32 \<le> random_state")
  case True
  then show ?thesis
    using roc_auc_score_one_class [OF nt ns one, of w] RandomState_rejects [OF True, of mt]
    by (simp add: roc_auc_ci_compute_def)
next
  case False
  then have g: "RandomState mt random_state = Inr (seeded mt random_state)"
    by (intro RandomState_seeded) auto
  let ?w = "warn one_class_warning w"
  let ?loop = "boot_loop (nat n_bootstrap) (seeded mt random_state) y_true y_score [] ?w"
  from boot_loop_one_class [OF ns one, of "nat n_bootstrap" "seeded mt random_state" "[]" ?w]
  consider "?loop = (Inl IndexError, ?w)" | g' where "?loop = (Inr ([], g'), ?w)"
    by blast
  then show ?thesis
  proof cases
    case 1
    with False g roc_auc_score_one_class [OF nt ns one, of w] show ?thesis
      by (simp add: roc_auc_ci_compute_def)
  next
    case 2
    with False g roc_auc_score_one_class [OF nt ns one, of w] show ?thesis
      by (simp add: roc_auc_ci_compute_def np_sort_Nil percentile_Nil)
  qed
qed

lemma compute_rejected_seed:
  assumes "True \<in> set y_true" and "False \<in> set y_true"
    and "length y_true = length y_score"
    and "random_state < 0 \<or> 2 ^ 32 \<le> random_state"
  shows "roc_auc_ci_compute mt y_true y_score n_bootstrap random_state w = (Inl ValueError, w)"
  using roc_auc_score_two_class [OF assms(1-3), of w] RandomState_rejects [OF assms(4), of mt]
  by (simp add: roc_auc_ci_compute_def)

lemma compute_two_class:
  assumes pos: "True \<in> set y_true" and neg: "False \<in> set y_true"
    and len: "length y_true = length y_score"
    and s0: "0 \<le> random_state" and s1: "random_state < 2 ^ 32"
  shows "roc_auc_ci_compute mt y_true y_score n_bootstrap random_state w =
           (if boot_distribution (seeded mt random_state) y_true y_score (nat n_bootstrap) = []
            then Inl IndexError
            else Inr (Some \<lparr>AUC = Num (rank_auc y_true y_score),
                CI = (Num (percentile_value
                             (boot_distribution (seeded mt random_state) y_true y_score
                                (nat n_bootstrap)) 2.5),
                      Num (rank_auc y_true y_score),
                      Num (percentile_value
                             (boot_distribution (seeded mt random_state) y_true y_score
                                (nat n_bootstrap)) 97.5))\<rparr>),
            w)"
proof -
  let ?b = "boot_distribution (seeded mt random_state) y_true y_score (nat n_bootstrap)"
  have ne: "y_score \<noteq> []" using pos len by auto
  note sc = roc_auc_score_two_class [OF pos neg len, of w]
  note g = RandomState_seeded [OF s0 s1, of mt]
  note loop = boot_loop_eq [OF len ne, of "nat n_bootstrap" "seeded mt random_state" "[]" w]
  show ?thesis
  proof (cases "?b = []")
    case True
    with sc g loop show ?thesis
      by (simp add: roc_auc_ci_compute_def np_sort_Nil percentile_Nil)
  next
    case False
    have lo: "percentile (np_sort (map Num ?b)) 2.5 = Inr (Num (percentile_value ?b 2.5))"
      by (rule percentile_sorted_scores [OF _ _ False]) simp_all
    have up: "percentile (np_sort (map Num ?b)) 97.5 = Inr (Num (percentile_value ?b 97.5))"
      by (rule percentile_sorted_scores [OF _ _ False]) simp_all
    from False sc g loop lo up show ?thesis
      by (simp add: roc_auc_ci_compute_def)
  qed
qed

text \<open>What a run that returns a dictionary went through.\<close>

lemma compute_Some:
  assumes ret: "roc_auc_ci_compute mt y_true y_score n_bootstrap random_state w = (Inr (Some r), w')"
  shows "True \<in> set y_true \<and> False \<in> set y_true \<and> length y_true = length y_score
         \<and> 0 \<le> random_state \<and> random_state < 2 ^ 32
         \<and> boot_distribution (seeded mt random_state) y_true y_score (nat n_bootstrap) \<noteq> []
         \<and> r = \<lparr>AUC = Num (rank_auc y_true y_score),
                 CI = (Num (percentile_value
                              (boot_distribution (seeded mt random_state) y_true y_score
                                 (nat n_bootstrap)) 2.5),
                       Num (rank_auc y_true y_score),
                       Num (percentile_value
                              (boot_distribution (seeded mt random_state) y_true y_score
                                 (nat n_bootstrap)) 97.5))\<rparr>
         \<and> w' = w"
proof -
  have ne: "y_true \<noteq> [] \<and> y_score \<noteq> []"
    using ret compute_empty [of y_true y_score mt n_bootstrap random_state w] by auto
  have both: "True \<in> set y_true \<and> False \<in> set y_true"
    using ret ne compute_one_class [of y_true y_score mt n_bootstrap random_state w] by auto
  have len: "length y_true = length y_score"
    using ret ne both compute_mismatch [of y_true y_score mt n_bootstrap random_state w] by auto
  have seed: "0 \<le> random_state \<and> random_state < 2 ^ 32"
    using ret both len compute_rejected_seed [of y_true y_score random_state mt n_bootstrap w]
    by (cases "random_state < 0 \<or> 2 ^ 32 \<le> random_state") auto
  from ret both len seed show ?thesis
    using compute_two_class [of y_true y_score random_state mt n_bootstrap w]
    by (auto split: if_splits)
qed

lemma roc_auc_ci_Some:
  assumes "roc_auc_ci mt w y_true y_score help n_bootstrap random_state = (Inr (Some r), w')"
  shows "roc_auc_ci_compute mt y_true y_score n_bootstrap random_state w = (Inr (Some r), w')"
  using assms by (auto simp: roc_auc_ci_def split: if_splits)

section \<open>The analytic estimator\<close>

lemma math_sqrt_nonneg: "math_sqrt v = Inr s \<Longrightarrow> 0 \<le> s"
  by (auto simp: math_sqrt_def split: if_splits)

lemma clamp_ordered:
  fixes auc se c :: real
  assumes "0 \<le> auc" "auc \<le> 1" "0 \<le> se" "0 \<le> c"
  shows "0 \<le> (if auc - c * se < 0 then 0 else auc - c * se)"
    and "(if auc - c * se < 0 then 0 else auc - c * se)
           \<le> (if 1 < auc + c * se then 1 else auc + c * se)"
    and "(if 1 < auc + c * se then 1 else auc + c * se) \<le> 1"
proof -
  have "0 \<le> c * se" using assms by simp
  then show "0 \<le> (if auc - c * se < 0 then 0 else auc - c * se)"
    and "(if auc - c * se < 0 then 0 else auc - c * se)
           \<le> (if 1 < auc + c * se then 1 else auc + c * se)"
    and "(if 1 < auc + c * se then 1 else auc + c * se) \<le> 1"
    using assms(1,2) by auto
qed

lemma count_list_pos: "x \<in> set xs \<Longrightarrow> 0 < count_list xs x"
  by (induction xs) auto

lemma hm_q1:
  fixes a :: real
  assumes a0: "0 \<le> a" and a1: "a \<le> 1"
  shows "0 \<le> a / (2 - a) - a\<^sup>2"
proof -
  have "a / (2 - a) - a\<^sup>2 = a * (1 - a)\<^sup>2 / (2 - a)"
    using a1 by (simp add: field_simps power2_eq_square)
  also have "0 \<le> \<dots>" using a0 a1 by (intro divide_nonneg_nonneg mult_nonneg_nonneg) auto
  finally show ?thesis .
qed

lemma hm_q2:
  fixes a :: real
  assumes a0: "0 \<le> a" and a1: "a \<le> 1"
  shows "0 \<le> 2 * a\<^sup>2 / (1 + a) - a\<^sup>2"
proof -
  have "2 * a\<^sup>2 / (1 + a) - a\<^sup>2 = a\<^sup>2 * (1 - a) / (1 + a)"
    using a0 by (simp add: field_simps power2_eq_square)
  also have "0 \<le> \<dots>" using a0 a1 by (intro divide_nonneg_nonneg mult_nonneg_nonneg) auto
  finally show ?thesis .
qed

lemma count_list_zero: "x \<notin> set xs \<Longrightarrow> count_list xs x = 0"
  by (induction xs) auto

lemma test_roc_auc_ci_returns:
  assumes pos: "True \<in> set y_true" and neg: "False \<in> set y_true"
    and len: "length y_true = length y_score"
  shows "\<exists>lower upper se.
           test_roc_auc_ci y_true y_score w = (Inr ((Num lower, Num upper), Num se), w)"
proof -
  define a where "a = rank_auc y_true y_score"
  have sc: "roc_auc_score y_true y_score w = (Inr (Num a), w)"
    using roc_auc_score_two_class [OF pos neg len] by (simp add: a_def)
  have a0: "0 \<le> a" and a1: "a \<le> 1"
    unfolding a_def by (rule rank_auc_nonneg, rule rank_auc_le_one)
  define N1 where "N1 = int (count_list y_true True)"
  define N2 where "N2 = int (count_list y_true False)"
  have n1: "1 \<le> N1" using count_list_pos [OF pos] by (simp add: N1_def)
  have n2: "1 \<le> N2" using count_list_pos [OF neg] by (simp add: N2_def)
  have q1: "py_div a (2 - a) = Inr (a / (2 - a))" using a1 by (simp add: py_div_def)
  have q2: "py_div (2 * a\<^sup>2) (1 + a) = Inr (2 * a\<^sup>2 / (1 + a))"
    using a0 by (simp add: py_div_def)
  define num where "num = a * (1 - a) + real_of_int (N1 - 1) * (a / (2 - a) - a\<^sup>2)
                                    + real_of_int (N2 - 1) * (2 * a\<^sup>2 / (1 + a) - a\<^sup>2)"
  define D where "D = real_of_int (N1 * N2)"
  have den: "0 < D" using n1 n2 by (simp add: D_def)
  have v: "py_div num D = Inr (num / D)"
    using den by (simp add: py_div_def)
  have "0 \<le> a * (1 - a)" using a0 a1 by simp
  moreover have "0 \<le> real_of_int (N1 - 1) * (a / (2 - a) - a\<^sup>2)"
    using n1 hm_q1 [OF a0 a1] by (intro mult_nonneg_nonneg) auto
  moreover have "0 \<le> real_of_int (N2 - 1) * (2 * a\<^sup>2 / (1 + a) - a\<^sup>2)"
    using n2 hm_q2 [OF a0 a1] by (intro mult_nonneg_nonneg) auto
  ultimately have "0 \<le> num" unfolding num_def by linarith
  then have "0 \<le> num / D" using den by (intro divide_nonneg_pos)
  then have s: "math_sqrt (num / D) = Inr (sqrt (num / D))"
    by (simp add: math_sqrt_def not_less)
  have "test_roc_auc_ci y_true y_score w =
          (case py_div num D of
             Inl e \<Rightarrow> Inl e
           | Inr v \<Rightarrow>
               (case math_sqrt v of
                  Inl e \<Rightarrow> Inl e
                | Inr SE_AUC \<Rightarrow>
                    let lower = a - 1.96 * SE_AUC;
                        upper = a + 1.96 * SE_AUC;
                        lower' = (if lower < 0 then 0 else lower);
                        upper' = (if 1 < upper then 1 else upper)
                    in Inr ((Num lower', Num upper'), Num SE_AUC)), w)"
    by (simp only: test_roc_auc_ci_def Let_def sc q1 q2 N1_def N2_def num_def D_def
        sum.case prod.case pyfloat.case)
  then show ?thesis
    by (simp add: v s Let_def)
qed


section \<open>The claims\<close>

subsection \<open>C9: the help gate\<close>

text \<open>
  C9. With the help flag set, \<^verbatim>\<open>roc_auc_ci\<close> returns \<^verbatim>\<open>None\<close>, not a result
  dictionary, whatever the other arguments are: no AUC is computed and no resample is
  drawn, so neither an invalid input nor a rejected seed makes it fail. All it does is
  print its docstring.
\<close>

theorem roc_auc_ci_help_returns_None:
  "roc_auc_ci mt w y_true y_score True n_bootstrap random_state =
     (Inr None, w\<lparr>stdout := stdout w @ roc_auc_ci_doc\<rparr>)"
  by (simp add: roc_auc_ci_def)

theorem roc_auc_ci_help_returns_None_witness:
  "roc_auc_ci (mt_of_list []) idle_world [True] [] True (- 5) (- 1) =
     (Inr None, idle_world\<lparr>stdout := roc_auc_ci_doc\<rparr>)"
  using roc_auc_ci_help_returns_None [of "mt_of_list []" idle_world "[True]" "[]" "- 5" "- 1"]
  by (simp add: idle_world_def)

subsection \<open>C2: the ordering of the returned values\<close>

text \<open>
  C2, as stated: for every valid input on which the estimator returns a result,
  \<open>0 \<le> lower \<le> auc \<le> upper \<le> 1\<close>. This fails. With the labels 0, 1, 1, the scores
  0.5, 0.8, 0.2 and one resample that draws the indices 0, 1, 1, the point AUC is 1/2
  while the only bootstrap AUC is 1, so that \<open>lower = upper = 1\<close> lies above the point
  estimate.
\<close>

theorem ci_ordered_counterexample:
  "valid_input [False, True, True] [1/2, 4/5, 1/5] 1
   \<and> fst (roc_auc_ci (mt_of_list [0, 1, 1]) idle_world
             [False, True, True] [1/2, 4/5, 1/5] False 1 42)
       = Inr (Some \<lparr>AUC = Num (1/2), CI = (Num 1, Num (1/2), Num 1)\<rparr>)
   \<and> \<not> ci_ordered \<lparr>AUC = Num (1/2), CI = (Num 1, Num (1/2), Num 1)\<rparr>"
  by (simp add: valid_input_def ci_ordered_def mt_of_list_def roc_auc_ci_def
      roc_auc_ci_compute_def RandomState_def randint_def index_array_def np_sort_def
      finite_part_def percentile_def roc_auc_score_def unique_def rank_auc_def
      pos_scores_def neg_scores_def pair_score_def)

text \<open>
  C2, amended: whenever the estimator returns a result, the point estimate and the two
  percentile bounds are numbers, the bounds are ordered and lie in the unit interval,
  \<open>0 \<le> lower \<le> upper \<le> 1\<close>, and so does the point estimate, \<open>0 \<le> auc \<le> 1\<close>, which is
  also the middle of the triple. The point estimate need not lie between the two bounds.
\<close>

theorem roc_auc_ci_bounds:
  assumes ret: "roc_auc_ci mt w y_true y_score help n_bootstrap random_state = (Inr (Some r), w')"
    and ci: "CI r = (lower, middle, upper)"
  shows "\<exists>l a u. lower = Num l \<and> AUC r = Num a \<and> upper = Num u \<and> middle = AUC r
           \<and> 0 \<le> l \<and> l \<le> u \<and> u \<le> 1 \<and> 0 \<le> a \<and> a \<le> 1"
proof -
  let ?b = "boot_distribution (seeded mt random_state) y_true y_score (nat n_bootstrap)"
  from compute_Some [OF roc_auc_ci_Some [OF ret]]
  have ne: "?b \<noteq> []"
    and r: "r = \<lparr>AUC = Num (rank_auc y_true y_score),
                  CI = (Num (percentile_value ?b 2.5), Num (rank_auc y_true y_score),
                        Num (percentile_value ?b 97.5))\<rparr>"
    by simp_all
  have rng: "\<forall>x\<in>set ?b. 0 \<le> x \<and> x \<le> 1" using boot_distribution_range by blast
  have l: "0 \<le> percentile_value ?b 2.5"
    using percentile_value_in_range [OF _ _ ne rng, of "2.5"] by simp
  have u: "percentile_value ?b 97.5 \<le> 1"
    using percentile_value_in_range [OF _ _ ne rng, of "97.5"] by simp
  have lu: "percentile_value ?b 2.5 \<le> percentile_value ?b 97.5"
    by (rule percentile_value_mono [OF _ _ _ ne]) simp_all
  from r ci have "lower = Num (percentile_value ?b 2.5)"
    and "upper = Num (percentile_value ?b 97.5)"
    and "middle = AUC r" and "AUC r = Num (rank_auc y_true y_score)"
    by simp_all
  with l u lu rank_auc_nonneg [of y_true y_score] rank_auc_le_one [of y_true y_score]
  show ?thesis by blast
qed

theorem roc_auc_ci_bounds_witness:
  "roc_auc_ci (mt_of_list [0, 1, 1, 0, 2, 2]) idle_world
       [False, True, True] [1/2, 4/5, 1/5] False 2 42
     = (Inr (Some \<lparr>AUC = Num (1/2), CI = (Num (1/40), Num (1/2), Num (39/40))\<rparr>), idle_world)
   \<and> (0::real) \<le> 1/40 \<and> (1/40::real) \<le> 39/40 \<and> (39/40::real) \<le> 1
   \<and> (0::real) \<le> 1/2 \<and> (1/2::real) \<le> 1"
proof -
  have run: "roc_auc_ci (mt_of_list [0, 1, 1, 0, 2, 2]) idle_world
       [False, True, True] [1/2, 4/5, 1/5] False 2 42
     = (Inr (Some \<lparr>AUC = Num (1/2), CI = (Num (1/40), Num (1/2), Num (39/40))\<rparr>), idle_world)"
    by (simp add: mt_of_list_def roc_auc_ci_def roc_auc_ci_compute_def RandomState_def
        randint_def index_array_def np_sort_def finite_part_def percentile_def
        roc_auc_score_def unique_def rank_auc_def pos_scores_def neg_scores_def
        pair_score_def numeral_2_eq_2)
  from roc_auc_ci_bounds [OF run, of "Num (1/40)" "Num (1/2)" "Num (39/40)"] run
  show ?thesis by auto
qed

subsection \<open>C3: invalid input\<close>

text \<open>
  C3, as stated: the estimator fails with an \<^verbatim>\<open>InvalidInput\<close> error whenever labels and
  scores differ in length, or \<open>N < 2\<close>, or the labels hold fewer than two distinct
  classes. The function checks nothing itself (lines 48-50), and the scorer does not
  reject labels of one class: it warns and answers nan. The run goes on; every resample
  is skipped, and it ends at line 63 in the IndexError of a percentile of the empty
  list, which is no report on the input.
\<close>

theorem invalid_input_counterexample:
  "card (set [True, True, True]) < 2
   \<and> roc_auc_score [True, True, True] [1/2, 1/3, 1/4] idle_world
       = (Inr NaN, warn one_class_warning idle_world)
   \<and> boot_loop 2 (seeded (mt_of_list [0, 1, 2]) 42) [True, True, True] [1/2, 1/3, 1/4] []
         (warn one_class_warning idle_world)
       = (Inr ([], \<lparr>stream = mt_of_list [0, 1, 2] 42, pos = 6\<rparr>),
          warn one_class_warning idle_world)
   \<and> percentile (np_sort []) 2.5 = Inl IndexError
   \<and> fst (roc_auc_ci (mt_of_list [0, 1, 2]) idle_world [True, True, True] [1/2, 1/3, 1/4]
             False 2 42) = Inl IndexError"
  by (simp add: seeded_def mt_of_list_def roc_auc_ci_def roc_auc_ci_compute_def
      RandomState_def randint_def index_array_def np_sort_def finite_part_def
      percentile_def roc_auc_score_def unique_def numeral_2_eq_2)

text \<open>
  C3, amended: whenever labels and scores differ in length, or \<open>N < 2\<close>, or the labels
  hold fewer than two distinct classes, the estimator fails and no call returns a
  result. The failure is a ValueError when an array is empty, when the labels hold both
  classes (the lengths differ then) or when the seed is rejected; in every other case,
  labels of one class with an accepted seed, it is the IndexError of a resample that
  reads past the labels or of the percentile of the empty bootstrap distribution. There
  is no check of the input in the function and no \<^verbatim>\<open>InvalidInput\<close> error.
\<close>

theorem roc_auc_ci_invalid_input:
  assumes invalid:
    "length y_true \<noteq> length y_score \<or> length y_true < 2 \<or> card (set y_true) < 2"
  shows "fst (roc_auc_ci mt w y_true y_score False n_bootstrap random_state)
           = Inl (if y_true = [] \<or> y_score = [] \<or> card (set y_true) = 2
                     \<or> random_state < 0 \<or> 2 ^ 32 \<le> random_state
                  then ValueError else IndexError)
         \<and> fst (roc_auc_ci mt w y_true y_score help n_bootstrap random_state) \<noteq> Inr (Some r)"
proof -
  have two: "card (set y_true) = 2 \<longleftrightarrow> True \<in> set y_true \<and> False \<in> set y_true"
    using unique_bool_two [of y_true] by (simp add: unique_bool_card)
  have err: "fst (roc_auc_ci_compute mt y_true y_score n_bootstrap random_state w)
           = Inl (if y_true = [] \<or> y_score = [] \<or> card (set y_true) = 2
                     \<or> random_state < 0 \<or> 2 ^ 32 \<le> random_state
                  then ValueError else IndexError)"
  proof (cases "y_true = [] \<or> y_score = []")
    case True
    then show ?thesis by (auto simp: compute_empty)
  next
    case ne: False
    show ?thesis
    proof (cases "card (set y_true) = 2")
      case True
      moreover have "card (set y_true) \<le> length y_true" by (rule card_length)
      ultimately have "length y_true \<noteq> length y_score" using invalid by linarith
      with ne True two show ?thesis by (simp add: compute_mismatch)
    next
      case False
      with ne two show ?thesis by (simp add: compute_one_class)
    qed
  qed
  have "fst (roc_auc_ci mt w y_true y_score help n_bootstrap random_state) \<noteq> Inr (Some r)"
    using err by (cases "help") (simp_all add: roc_auc_ci_def)
  with err show ?thesis by (simp add: roc_auc_ci_def)
qed

theorem roc_auc_ci_invalid_input_witness:
  "(length [False, True] \<noteq> length [1/2 :: real]
      \<and> fst (roc_auc_ci (mt_of_list []) idle_world [False, True] [1/2] False 10 42)
          = Inl ValueError)
   \<and> (length [True] < 2
      \<and> fst (roc_auc_ci (mt_of_list []) idle_world [True] [1/2] False 10 42)
          = Inl IndexError)
   \<and> (card (set [True, True, True]) < 2
      \<and> fst (roc_auc_ci (mt_of_list []) idle_world [True, True, True] [1/2, 1/3, 1/4] False 10 42)
          = Inl IndexError)"
proof -
  have a: "length [False, True] \<noteq> length [1/2 :: real]" by simp
  have b: "length [True] < 2" by simp
  have c: "card (set [True, True, True]) < 2" by simp
  have a': "card (set [False, True]) = 2" by simp
  have b': "card (set [True]) \<noteq> 2" by simp
  have c': "card (set [True, True, True]) \<noteq> 2" by simp
  from a b c a' b' c'
    roc_auc_ci_invalid_input [of "[False, True]" "[1/2]" "mt_of_list []" idle_world 10 42,
      OF disjI1, OF a]
    roc_auc_ci_invalid_input [of "[True]" "[1/2]" "mt_of_list []" idle_world 10 42,
      OF disjI2, OF disjI1, OF b]
    roc_auc_ci_invalid_input [of "[True, True, True]" "[1/2, 1/3, 1/4]" "mt_of_list []"
      idle_world 10 42, OF disjI2, OF disjI2, OF c]
  show ?thesis by simp
qed

subsection \<open>C7: determinism and side effects\<close>

text \<open>
  C7, as stated: two invocations with the same arguments produce the same values, and
  the computation has no side effect on any external state. The second half fails: on
  labels of one class the scorer called at line 50 issues a warning, which reaches the
  process before the run ends in its IndexError.
\<close>

theorem side_effect_counterexample:
  "snd (roc_auc_ci (mt_of_list [0, 1]) idle_world [True, True] [1/2, 1/3] False 1 42)
     = idle_world\<lparr>warnings := [one_class_warning]\<rparr>
   \<and> idle_world\<lparr>warnings := [one_class_warning]\<rparr> \<noteq> idle_world"
  by (simp add: idle_world_def warn_def one_class_warning_def seeded_def mt_of_list_def
      roc_auc_ci_def roc_auc_ci_compute_def RandomState_def randint_def index_array_def
      np_sort_def finite_part_def percentile_def roc_auc_score_def unique_def)

text \<open>
  C7, amended: the estimator is deterministic: started in any two external states
  (whatever has been printed or warned about, wherever the process-wide numpy generator
  stands), two invocations with the same labels, scores, number of resamples and seed
  end in the same outcome, the same AUC and confidence interval or the same error; the
  generator in use is created from the seed inside the function (line 52). The only
  effect on the external state is the warning that the scorer issues for non-empty
  labels of one class; on every other input, every valid input included, the state is
  left as it was found. (The input arrays are values here; the source only reads them.)
\<close>

theorem roc_auc_ci_deterministic:
  "fst (roc_auc_ci mt w1 y_true y_score False n_bootstrap random_state)
     = fst (roc_auc_ci mt w2 y_true y_score False n_bootstrap random_state)
   \<and> snd (roc_auc_ci mt w1 y_true y_score False n_bootstrap random_state)
       = (if y_true \<noteq> [] \<and> y_score \<noteq> [] \<and> card (set y_true) < 2
          then warn one_class_warning w1 else w1)"
proof -
  have two: "card (set y_true) = 2 \<longleftrightarrow> True \<in> set y_true \<and> False \<in> set y_true"
    using unique_bool_two [of y_true] by (simp add: unique_bool_card)
  have le2: "card (set y_true) \<le> 2"
    using unique_bool_le2 [of y_true] by (simp add: unique_bool_card)
  have run: "roc_auc_ci_compute mt y_true y_score n_bootstrap random_state w
               = (fst (roc_auc_ci_compute mt y_true y_score n_bootstrap random_state w1),
                  if y_true \<noteq> [] \<and> y_score \<noteq> [] \<and> card (set y_true) < 2
                  then warn one_class_warning w else w)" for w
  proof (cases "y_true = [] \<or> y_score = []")
    case True
    then show ?thesis by (auto simp: compute_empty)
  next
    case ne: False
    show ?thesis
    proof (cases "True \<in> set y_true \<and> False \<in> set y_true")
      case one: False
      then have "card (set y_true) < 2" using two le2 by linarith
      with ne one show ?thesis by (simp add: compute_one_class)
    next
      case both: True
      then have c2: "\<not> card (set y_true) < 2" using two by simp
      show ?thesis
      proof (cases "length y_true = length y_score")
        case False
        with ne both c2 show ?thesis by (simp add: compute_mismatch)
      next
        case len: True
        show ?thesis
        proof (cases "random_state < 0 \<or> 2 ^ 32 \<le> random_state")
          case True
          with both len c2 show ?thesis by (simp add: compute_rejected_seed)
        next
          case False
          then have "0 \<le> random_state" and "random_state < 2 ^ 32" by simp_all
          with both len c2 show ?thesis by (simp add: compute_two_class)
        qed
      qed
    qed
  qed
  have a: "fst (roc_auc_ci_compute mt y_true y_score n_bootstrap random_state w2)
             = fst (roc_auc_ci_compute mt y_true y_score n_bootstrap random_state w1)"
    by (subst run [of w2]) simp
  have b: "snd (roc_auc_ci_compute mt y_true y_score n_bootstrap random_state w1)
             = (if y_true \<noteq> [] \<and> y_score \<noteq> [] \<and> card (set y_true) < 2
                then warn one_class_warning w1 else w1)"
    by (subst run [of w1]) simp
  from a b show ?thesis by (simp add: roc_auc_ci_def)
qed

theorem roc_auc_ci_deterministic_witness:
  "fst (roc_auc_ci (mt_of_list [0, 1, 1]) idle_world
          [False, True, True] [1/2, 4/5, 1/5] False 1 42)
     = Inr (Some \<lparr>AUC = Num (1/2), CI = (Num 1, Num (1/2), Num 1)\<rparr>)
   \<and> fst (roc_auc_ci (mt_of_list [0, 1, 1])
            (idle_world\<lparr>stdout := [''earlier output''], warnings := [''earlier warning''],
                         global_rng := \<lparr>stream = (\<lambda>k. 7 * k), pos = 12\<rparr>\<rparr>)
            [False, True, True] [1/2, 4/5, 1/5] False 1 42)
     = Inr (Some \<lparr>AUC = Num (1/2), CI = (Num 1, Num (1/2), Num 1)\<rparr>)
   \<and> snd (roc_auc_ci (mt_of_list [0, 1, 1]) idle_world
          [False, True, True] [1/2, 4/5, 1/5] False 1 42) = idle_world"
proof -
  have run: "fst (roc_auc_ci (mt_of_list [0, 1, 1]) idle_world
          [False, True, True] [1/2, 4/5, 1/5] False 1 42)
     = Inr (Some \<lparr>AUC = Num (1/2), CI = (Num 1, Num (1/2), Num 1)\<rparr>)"
    by (simp add: mt_of_list_def roc_auc_ci_def roc_auc_ci_compute_def RandomState_def
        randint_def index_array_def np_sort_def finite_part_def percentile_def
        roc_auc_score_def unique_def rank_auc_def pos_scores_def neg_scores_def
        pair_score_def)
  have c: "\<not> card (set [False, True, True]) < 2" by simp
  from run c
    roc_auc_ci_deterministic [of "mt_of_list [0, 1, 1]" idle_world
      "[False, True, True]" "[1/2, 4/5, 1/5]" 1 42
      "idle_world\<lparr>stdout := [''earlier output''], warnings := [''earlier warning''],
                   global_rng := \<lparr>stream = (\<lambda>k. 7 * k), pos = 12\<rparr>\<rparr>"]
  show ?thesis by simp
qed

subsection \<open>C8: the toy dataset\<close>

text \<open>
  C8. On the labels 0, 1, 1, 0 with the scores 0.2, 0.8, 0.7, 0.3 the rank-based AUC is
  exactly 1, and every result that the estimator returns for this dataset carries the
  point AUC 1, for every number of resamples, seed and generator.
\<close>

theorem roc_auc_ci_toy_dataset:
  "roc_auc_score [False, True, True, False] [0.2, 0.8, 0.7, 0.3] w = (Inr (Num 1), w)
   \<and> (fst (roc_auc_ci mt w [False, True, True, False] [0.2, 0.8, 0.7, 0.3]
              help n_bootstrap random_state) = Inr (Some r)
        \<longrightarrow> AUC r = Num 1)"
proof -
  have toy: "rank_auc [False, True, True, False] [0.2, 0.8, 0.7, 0.3] = 1"
    by (simp add: rank_auc_def pos_scores_def neg_scores_def pair_score_def)
  have sc: "roc_auc_score [False, True, True, False] [0.2, 0.8, 0.7, 0.3] w = (Inr (Num 1), w)"
    using roc_auc_score_two_class [of "[False, True, True, False]" "[0.2, 0.8, 0.7, 0.3]" w] toy
    by simp
  have "AUC r = Num 1"
    if "fst (roc_auc_ci mt w [False, True, True, False] [0.2, 0.8, 0.7, 0.3]
               help n_bootstrap random_state) = Inr (Some r)"
  proof -
    have "roc_auc_ci mt w [False, True, True, False] [0.2, 0.8, 0.7, 0.3]
               help n_bootstrap random_state
            = (Inr (Some r), snd (roc_auc_ci mt w [False, True, True, False]
                 [0.2, 0.8, 0.7, 0.3] help n_bootstrap random_state))"
      using that by (simp add: prod_eq_iff)
    from compute_Some [OF roc_auc_ci_Some [OF this]] toy show ?thesis by simp
  qed
  with sc show ?thesis by blast
qed

theorem roc_auc_ci_toy_dataset_witness:
  "fst (roc_auc_ci (mt_of_list [0, 1, 2, 3]) idle_world [False, True, True, False]
          [0.2, 0.8, 0.7, 0.3] False 1 42)
     = Inr (Some \<lparr>AUC = Num 1, CI = (Num 1, Num 1, Num 1)\<rparr>)
   \<and> AUC \<lparr>AUC = Num 1, CI = (Num 1, Num 1, Num 1)\<rparr> = Num 1"
proof -
  have run: "fst (roc_auc_ci (mt_of_list [0, 1, 2, 3]) idle_world [False, True, True, False]
          [0.2, 0.8, 0.7, 0.3] False 1 42)
     = Inr (Some \<lparr>AUC = Num 1, CI = (Num 1, Num 1, Num 1)\<rparr>)"
    by (simp add: mt_of_list_def roc_auc_ci_def roc_auc_ci_compute_def RandomState_def
        randint_def index_array_def np_sort_def finite_part_def percentile_def
        roc_auc_score_def unique_def rank_auc_def pos_scores_def neg_scores_def
        pair_score_def)
  from roc_auc_ci_toy_dataset [of idle_world "mt_of_list [0, 1, 2, 3]" False 1 42
      "\<lparr>AUC = Num 1, CI = (Num 1, Num 1, Num 1)\<rparr>"] run
  show ?thesis by simp
qed

subsection \<open>C1: what a valid input returns\<close>

text \<open>
  C1, as stated: for every valid input the estimator returns the point AUC and a triple
  with that AUC in the middle. This fails, because a valid input need not return at all.
  With the labels 0, 1 and one resample that draws the index 0 twice, the only resample
  is discarded and the percentile of the empty distribution raises; and numpy accepts
  no seed below 0, so that the seed -1 makes \<^verbatim>\<open>RandomState\<close> raise.
\<close>

theorem valid_input_returns_counterexample:
  "valid_input [False, True] [1/10, 9/10] 1
   \<and> fst (roc_auc_ci (mt_of_list [0, 0]) idle_world [False, True] [1/10, 9/10] False 1 42)
       = Inl IndexError
   \<and> fst (roc_auc_ci (mt_of_list [0, 1]) idle_world [False, True] [1/10, 9/10] False 1 (- 1))
       = Inl ValueError"
  by (simp add: valid_input_def mt_of_list_def roc_auc_ci_def roc_auc_ci_compute_def
      RandomState_def randint_def index_array_def np_sort_def finite_part_def
      percentile_def roc_auc_score_def unique_def rank_auc_def pos_scores_def
      neg_scores_def pair_score_def)

text \<open>
  C1, amended: for every valid input whose seed lies in \<open>0 .. 2^32 - 1\<close> and for which
  at least one of the resamples holds both classes, the estimator returns the rank-based
  point AUC together with a triple (lower, point, upper) whose middle element is exactly
  the returned point AUC, and it leaves the external state as it was.
\<close>

theorem roc_auc_ci_returns_point_auc:
  assumes valid: "valid_input y_true y_score n_bootstrap"
    and s0: "0 \<le> random_state" and s1: "random_state < 2 ^ 32"
    and kept: "boot_distribution (seeded mt random_state) y_true y_score (nat n_bootstrap) \<noteq> []"
  shows "\<exists>lower upper.
           roc_auc_ci mt w y_true y_score False n_bootstrap random_state
             = (Inr (Some \<lparr>AUC = Num (rank_auc y_true y_score),
                            CI = (Num lower, Num (rank_auc y_true y_score), Num upper)\<rparr>), w)"
proof -
  from valid have "True \<in> set y_true" and "False \<in> set y_true"
    and "length y_true = length y_score"
    by (simp_all add: valid_input_def)
  from compute_two_class [OF this s0 s1, of mt n_bootstrap w] kept
  show ?thesis by (simp add: roc_auc_ci_def)
qed

theorem roc_auc_ci_returns_point_auc_witness:
  "valid_input [False, True, True, False] [0.2, 0.8, 0.7, 0.3] 2
   \<and> (0::int) \<le> 42 \<and> (42::int) < 2 ^ 32
   \<and> boot_distribution (seeded (mt_of_list [0, 0, 0, 0, 3, 1, 0, 2]) 42)
        [False, True, True, False] [0.2, 0.8, 0.7, 0.3] (nat 2) \<noteq> []
   \<and> (\<exists>lower upper.
         roc_auc_ci (mt_of_list [0, 0, 0, 0, 3, 1, 0, 2]) idle_world
             [False, True, True, False] [0.2, 0.8, 0.7, 0.3] False 2 42
           = (Inr (Some \<lparr>AUC = Num (rank_auc [False, True, True, False] [0.2, 0.8, 0.7, 0.3]),
                          CI = (Num lower,
                                Num (rank_auc [False, True, True, False] [0.2, 0.8, 0.7, 0.3]),
                                Num upper)\<rparr>), idle_world))"
proof -
  have v: "valid_input [False, True, True, False] [0.2, 0.8, 0.7, 0.3] 2"
    by (simp add: valid_input_def)
  have k: "boot_distribution (seeded (mt_of_list [0, 0, 0, 0, 3, 1, 0, 2]) 42)
        [False, True, True, False] [0.2, 0.8, 0.7, 0.3] (nat 2) \<noteq> []"
    by (simp add: boot_distribution_def contribution_def resample_def seeded_def
        mt_of_list_def numeral_2_eq_2 card_insert_if)
  from roc_auc_ci_returns_point_auc [OF v _ _ k, of idle_world] v k show ?thesis by simp
qed

subsection \<open>C4: every resample discarded\<close>

text \<open>
  C4, as stated: when every resample is discarded the estimator fails with a dedicated
  \<^verbatim>\<open>InsufficientBootstrapSamples\<close> error rather than taking percentiles of an empty
  distribution. The function has no such error and no check of the distribution: lines
  62-64 sort the empty list and hand it to \<^verbatim>\<open>np.percentile\<close>, and the run ends in
  the IndexError which that routine raises on an empty array. Here both resamples draw
  the index 1 twice.
\<close>

theorem empty_distribution_counterexample:
  "valid_input [True, False] [3/10, 7/10] 2
   \<and> boot_loop 2 (seeded (mt_of_list [1, 1, 1, 1]) 7) [True, False] [3/10, 7/10] [] idle_world
       = (Inr ([], \<lparr>stream = mt_of_list [1, 1, 1, 1] 7, pos = 4\<rparr>), idle_world)
   \<and> percentile (np_sort []) 2.5 = Inl IndexError
   \<and> fst (roc_auc_ci (mt_of_list [1, 1, 1, 1]) idle_world [True, False] [3/10, 7/10] False 2 7)
       = Inl IndexError"
  by (simp add: valid_input_def seeded_def mt_of_list_def roc_auc_ci_def
      roc_auc_ci_compute_def RandomState_def randint_def index_array_def np_sort_def
      finite_part_def percentile_def roc_auc_score_def unique_def rank_auc_def
      pos_scores_def neg_scores_def pair_score_def numeral_2_eq_2)

text \<open>
  C4, amended: when every resample is discarded (on an input that the scorer and the
  generator accept), the estimator applies the percentile routine to the empty
  distribution and fails with the IndexError of that routine; it returns no result and
  leaves the external state alone.
\<close>

theorem roc_auc_ci_all_discarded:
  assumes valid: "valid_input y_true y_score n_bootstrap"
    and s0: "0 \<le> random_state" and s1: "random_state < 2 ^ 32"
    and empty: "boot_distribution (seeded mt random_state) y_true y_score (nat n_bootstrap) = []"
  shows "roc_auc_ci mt w y_true y_score False n_bootstrap random_state = (Inl IndexError, w)
         \<and> percentile (np_sort (map Num (boot_distribution (seeded mt random_state) y_true
                                            y_score (nat n_bootstrap)))) 2.5 = Inl IndexError"
proof -
  from valid have "True \<in> set y_true" and "False \<in> set y_true"
    and "length y_true = length y_score"
    by (simp_all add: valid_input_def)
  from compute_two_class [OF this s0 s1, of mt n_bootstrap w] empty
  show ?thesis by (simp add: roc_auc_ci_def np_sort_Nil percentile_Nil)
qed

theorem roc_auc_ci_all_discarded_witness:
  "valid_input [True, False, False] [3/10, 7/10, 1/10] 1
   \<and> (0::int) \<le> 0 \<and> (0::int) < 2 ^ 32
   \<and> boot_distribution (seeded (mt_of_list [2, 1, 4]) 0)
        [True, False, False] [3/10, 7/10, 1/10] (nat 1) = []
   \<and> roc_auc_ci (mt_of_list [2, 1, 4]) idle_world [True, False, False] [3/10, 7/10, 1/10]
        False 1 0 = (Inl IndexError, idle_world)"
proof -
  have v: "valid_input [True, False, False] [3/10, 7/10, 1/10] 1"
    by (simp add: valid_input_def)
  have e: "boot_distribution (seeded (mt_of_list [2, 1, 4]) 0)
        [True, False, False] [3/10, 7/10, 1/10] (nat 1) = []"
    by (simp add: boot_distribution_def contribution_def resample_def seeded_def
        mt_of_list_def card_insert_if)
  from roc_auc_ci_all_discarded [OF v _ _ e, of idle_world] v e show ?thesis by simp
qed

subsection \<open>C10: the analytic interval is clamped\<close>

text \<open>
  C10. Whenever the Hanley-McNeil estimator of \<^verbatim>\<open>test.py\<close> returns, the interval it
  returns consists of two numbers with \<open>0 \<le> lower \<le> upper \<le> 1\<close>: the AUC lies in the
  unit interval, the standard error is a square root and so not negative, and lines
  25-28 cut the lower bound at 0 and the upper bound at 1. A nan from the scorer never
  gets that far, since labels of one class make line 22 divide by zero. (By
  \<open>test_roc_auc_ci_returns\<close> the function does return for all labels with both classes
  and as many scores.)
\<close>

theorem test_roc_auc_ci_clamped:
  assumes ret: "test_roc_auc_ci y_true y_score w = (Inr ((lower, upper), se), w')"
  shows "\<exists>l u. lower = Num l \<and> upper = Num u \<and> 0 \<le> l \<and> l \<le> u \<and> u \<le> 1"
proof -
  obtain res w1 where sc: "roc_auc_score y_true y_score w = (res, w1)"
    by (cases "roc_auc_score y_true y_score w")
  obtain a where res: "res = Inr a"
    using ret sc by (cases res) (simp_all add: test_roc_auc_ci_def)
  show ?thesis
  proof (cases a)
    case NaN
    with sc res have "\<not> (True \<in> set y_true \<and> False \<in> set y_true)"
      using roc_auc_score_NaN by blast
    then have "count_list y_true True = 0 \<or> count_list y_true False = 0"
      using count_list_zero [of True y_true] count_list_zero [of False y_true] by auto
    with ret sc res NaN have False by (auto simp: test_roc_auc_ci_def)
    then show ?thesis ..
  next
    case (Num auc)
    note sc' = sc [unfolded res Num]
    obtain Q1 where q1: "py_div auc (2 - auc) = Inr Q1"
      using ret sc' by (cases "py_div auc (2 - auc)") (simp_all add: test_roc_auc_ci_def)
    obtain Q2 where q2: "py_div (2 * auc\<^sup>2) (1 + auc) = Inr Q2"
      using ret sc' q1
      by (cases "py_div (2 * auc\<^sup>2) (1 + auc)") (simp_all add: test_roc_auc_ci_def)
    define N1 where "N1 = int (count_list y_true True)"
    define N2 where "N2 = int (count_list y_true False)"
    define num where "num = auc * (1 - auc) + real_of_int (N1 - 1) * (Q1 - auc\<^sup>2)
                                      + real_of_int (N2 - 1) * (Q2 - auc\<^sup>2)"
    obtain v where v: "py_div num (real_of_int (N1 * N2)) = Inr v"
      using ret sc' q1 q2
      by (cases "py_div num (real_of_int (N1 * N2))")
         (simp_all add: test_roc_auc_ci_def N1_def N2_def num_def Let_def)
    obtain s where s: "math_sqrt v = Inr s"
      using ret sc' q1 q2 v
      by (cases "math_sqrt v")
         (simp_all add: test_roc_auc_ci_def N1_def N2_def num_def Let_def)
    have s0: "0 \<le> s" by (rule math_sqrt_nonneg [OF s])
    from roc_auc_score_Num [OF sc'] have "auc = rank_auc y_true y_score" by simp
    then have a01: "0 \<le> auc" "auc \<le> 1"
      by (simp_all add: rank_auc_nonneg rank_auc_le_one)
    from ret sc' q1 q2 v s
    have "lower = Num (if auc - 1.96 * s < 0 then 0 else auc - 1.96 * s)"
      and "upper = Num (if 1 < auc + 1.96 * s then 1 else auc + 1.96 * s)"
      by (auto simp: test_roc_auc_ci_def N1_def N2_def num_def Let_def)
    then show ?thesis
      using clamp_ordered [OF a01 s0, of "1.96"] by simp
  qed
qed

theorem test_roc_auc_ci_clamped_witness:
  "test_roc_auc_ci [False, True] [1/2, 1/2] idle_world
     = (Inr ((Num 0, Num 1), Num (1/2)), idle_world)
   \<and> (0::real) \<le> 0 \<and> (0::real) \<le> 1 \<and> (1::real) \<le> 1"
proof -
  have "sqrt (1/4) = 1/2" by (simp add: real_sqrt_divide)
  then have run: "test_roc_auc_ci [False, True] [1/2, 1/2] idle_world
                    = (Inr ((Num 0, Num 1), Num (1/2)), idle_world)"
    by (simp add: test_roc_auc_ci_def py_div_def math_sqrt_def roc_auc_score_def
        unique_def rank_auc_def pos_scores_def neg_scores_def pair_score_def)
  from test_roc_auc_ci_clamped [OF run] run show ?thesis by simp
qed

subsection \<open>C5: the bootstrap loop\<close>

text \<open>
  C5. Started with an empty list on \<open>N > 0\<close> observations, the loop of lines 55-60 runs
  exactly \<open>k\<close> iterations and ends without an error or a warning: the generator has
  delivered \<open>k * N\<close> numbers, and the list it leaves is the bootstrap distribution of
  \<open>k\<close> iterations, of length between 0 and \<open>k\<close>. Iteration \<open>i\<close> draws \<open>N\<close> indices,
  each in \<open>[0, N)\<close>; when the labels at these indices hold fewer than two distinct
  classes it appends nothing and is not made up for, otherwise it appends the AUC that
  \<^verbatim>\<open>roc_auc_score\<close> returns for the resampled labels and scores. (That the draws are
  uniform is a property of numpy's generator, which is a parameter here.)
\<close>

theorem boot_loop_iterations:
  assumes len: "length y_true = length y_score" and ne: "y_score \<noteq> []"
  shows "boot_loop k g y_true y_score [] w
           = (Inr (map Num (boot_distribution g y_true y_score k),
                   g\<lparr>pos := pos g + k * length y_score\<rparr>), w)
         \<and> length (boot_distribution g y_true y_score k) \<le> k
         \<and> (\<forall>i<k.
               let indices = resample g (length y_score) i;
                   yt = map (\<lambda>j. y_true ! j) indices;
                   ys = map (\<lambda>j. y_score ! j) indices
               in length indices = length y_score
                  \<and> (\<forall>j\<in>set indices. j < length y_score)
                  \<and> boot_distribution g y_true y_score (Suc i)
                      = boot_distribution g y_true y_score i
                          @ (if card (set yt) < 2 then [] else [rank_auc yt ys])
                  \<and> (2 \<le> card (set yt)
                       \<longrightarrow> roc_auc_score yt ys w = (Inr (Num (rank_auc yt ys)), w)))"
proof (intro conjI allI impI)
  show "boot_loop k g y_true y_score [] w
          = (Inr (map Num (boot_distribution g y_true y_score k),
                  g\<lparr>pos := pos g + k * length y_score\<rparr>), w)"
    using boot_loop_eq [OF len ne, of k g "[]" w] by simp
  show "length (boot_distribution g y_true y_score k) \<le> k"
    by (rule length_boot_distribution)
next
  fix i
  let ?N = "length y_score"
  let ?idx = "resample g ?N i"
  let ?yt = "map (\<lambda>j. y_true ! j) ?idx" and ?ys = "map (\<lambda>j. y_score ! j) ?idx"
  have N: "0 < ?N" using ne by simp
  have a: "length ?idx = ?N" by (rule length_resample)
  have b: "\<forall>j\<in>set ?idx. j < ?N" using resample_less [OF N] by blast
  have c: "boot_distribution g y_true y_score (Suc i)
             = boot_distribution g y_true y_score i
                 @ (if card (set ?yt) < 2 then [] else [rank_auc ?yt ?ys])"
    by (simp add: boot_distribution_Suc contribution_def)
  have d: "2 \<le> card (set ?yt) \<longrightarrow> roc_auc_score ?yt ?ys w = (Inr (Num (rank_auc ?yt ?ys)), w)"
  proof
    assume "2 \<le> card (set ?yt)"
    then have "\<not> length (unique ?yt) < 2" by (simp add: unique_bool_card)
    then have "True \<in> set ?yt \<and> False \<in> set ?yt"
      using unique_bool_less2 [of ?yt] by blast
    then show "roc_auc_score ?yt ?ys w = (Inr (Num (rank_auc ?yt ?ys)), w)"
      by (intro roc_auc_score_two_class) simp_all
  qed
  from a b c d
  show "let indices = resample g (length y_score) i;
            yt = map (\<lambda>j. y_true ! j) indices;
            ys = map (\<lambda>j. y_score ! j) indices
        in length indices = length y_score
           \<and> (\<forall>j\<in>set indices. j < length y_score)
           \<and> boot_distribution g y_true y_score (Suc i)
               = boot_distribution g y_true y_score i
                   @ (if card (set yt) < 2 then [] else [rank_auc yt ys])
           \<and> (2 \<le> card (set yt)
                \<longrightarrow> roc_auc_score yt ys w = (Inr (Num (rank_auc yt ys)), w))"
    by (simp only: Let_def)
qed

theorem boot_loop_iterations_witness:
  "length [False, True] = length [1/10 :: real, 9/10] \<and> [1/10 :: real, 9/10] \<noteq> []
   \<and> boot_loop 3 (seeded (mt_of_list [0, 0, 1, 0, 1, 1]) 42) [False, True] [1/10, 9/10] []
         idle_world
       = (Inr ([Num 1], \<lparr>stream = mt_of_list [0, 0, 1, 0, 1, 1] 42, pos = 6\<rparr>), idle_world)
   \<and> boot_distribution (seeded (mt_of_list [0, 0, 1, 0, 1, 1]) 42) [False, True] [1/10, 9/10] 3
       = [1]"
proof -
  have l: "length [False, True] = length [1/10 :: real, 9/10]" by simp
  have n: "[1/10 :: real, 9/10] \<noteq> []" by simp
  have d: "boot_distribution (seeded (mt_of_list [0, 0, 1, 0, 1, 1]) 42)
             [False, True] [1/10, 9/10] 3 = [1]"
    by (simp add: boot_distribution_def contribution_def resample_def seeded_def
        mt_of_list_def rank_auc_def pos_scores_def neg_scores_def pair_score_def
        card_insert_if numeral_3_eq_3)
  from boot_loop_iterations [OF l n, of 3 "seeded (mt_of_list [0, 0, 1, 0, 1, 1]) 42"
      idle_world] d l n
  show ?thesis by (simp add: seeded_def)
qed

subsection \<open>C6: the bounds are interpolated percentiles\<close>

text \<open>
  C6. Whenever the estimator returns a result, the bootstrap distribution that the loop
  has left is a non-empty list of numbers, and the bounds of the triple are its 2.5th
  and 97.5th percentiles: with \<open>s\<close> the sorted distribution of \<open>n\<close> values, the values
  interpolated linearly between the order statistics of \<open>s\<close> at the virtual indices
  \<open>0.025 * (n - 1)\<close> and \<open>0.975 * (n - 1)\<close>. For a distribution with a single element
  both bounds are that element.
\<close>

theorem roc_auc_ci_percentile_bounds:
  assumes ret: "roc_auc_ci mt w y_true y_score help n_bootstrap random_state = (Inr (Some r), w')"
  shows "\<exists>boot_scores g'.
           boot_loop (nat n_bootstrap) (seeded mt random_state) y_true y_score [] w
             = (Inr (map Num boot_scores, g'), w)
           \<and> boot_scores \<noteq> []
           \<and> CI r = (Num (interpolate (sort boot_scores)
                             (2.5 / 100 * real (length boot_scores - 1))),
                      AUC r,
                      Num (interpolate (sort boot_scores)
                             (97.5 / 100 * real (length boot_scores - 1))))
           \<and> (\<forall>x. boot_scores = [x] \<longrightarrow> CI r = (Num x, AUC r, Num x))"
proof -
  let ?b = "boot_distribution (seeded mt random_state) y_true y_score (nat n_bootstrap)"
  from compute_Some [OF roc_auc_ci_Some [OF ret]]
  have pos: "True \<in> set y_true" and len: "length y_true = length y_score"
    and bne: "?b \<noteq> []"
    and r: "r = \<lparr>AUC = Num (rank_auc y_true y_score),
                  CI = (Num (percentile_value ?b 2.5), Num (rank_auc y_true y_score),
                        Num (percentile_value ?b 97.5))\<rparr>"
    by simp_all
  have ne: "y_score \<noteq> []" using pos len by auto
  have loop: "boot_loop (nat n_bootstrap) (seeded mt random_state) y_true y_score [] w
                = (Inr (map Num ?b, (seeded mt random_state)
                     \<lparr>pos := pos (seeded mt random_state) + nat n_bootstrap * length y_score\<rparr>),
                   w)"
    using boot_loop_eq [OF len ne, of "nat n_bootstrap" "seeded mt random_state" "[]" w]
    by simp
  have ci: "CI r = (Num (interpolate (sort ?b) (2.5 / 100 * real (length ?b - 1))),
                    AUC r,
                    Num (interpolate (sort ?b) (97.5 / 100 * real (length ?b - 1))))"
    using r by (simp add: percentile_value_def)
  have single: "\<forall>x. ?b = [x] \<longrightarrow> CI r = (Num x, AUC r, Num x)"
    using r by (auto simp: percentile_value_single)
  from loop bne ci single show ?thesis by blast
qed

theorem roc_auc_ci_percentile_bounds_witness:
  "roc_auc_ci (mt_of_list [0, 1, 1, 0, 2, 2]) idle_world
       [False, True, True] [1/2, 4/5, 1/5] False 2 42
     = (Inr (Some \<lparr>AUC = Num (1/2), CI = (Num (1/40), Num (1/2), Num (39/40))\<rparr>), idle_world)
   \<and> (\<exists>boot_scores g'.
         boot_loop (nat 2) (seeded (mt_of_list [0, 1, 1, 0, 2, 2]) 42)
             [False, True, True] [1/2, 4/5, 1/5] [] idle_world
           = (Inr (map Num boot_scores, g'), idle_world)
         \<and> boot_scores \<noteq> []
         \<and> (Num (1/40), Num (1/2), Num (39/40))
             = (Num (interpolate (sort boot_scores)
                       (2.5 / 100 * real (length boot_scores - 1))),
                Num (1/2),
                Num (interpolate (sort boot_scores)
                       (97.5 / 100 * real (length boot_scores - 1)))))"
proof -
  have run: "roc_auc_ci (mt_of_list [0, 1, 1, 0, 2, 2]) idle_world
       [False, True, True] [1/2, 4/5, 1/5] False 2 42
     = (Inr (Some \<lparr>AUC = Num (1/2), CI = (Num (1/40), Num (1/2), Num (39/40))\<rparr>), idle_world)"
    by (simp add: mt_of_list_def roc_auc_ci_def roc_auc_ci_compute_def RandomState_def
        randint_def index_array_def np_sort_def finite_part_def percentile_def
        roc_auc_score_def unique_def rank_auc_def pos_scores_def neg_scores_def
        pair_score_def numeral_2_eq_2)
  from roc_auc_ci_percentile_bounds [OF run] run show ?thesis by auto
qed

end
